theory Spec2Isabelle
  imports Main "HOL-Library.Word" "HOL-Library.AList"
begin

section \<open>The buffer group of \<open>OgreGameLib/AudioBufferGroup.cpp\<close>\<close>

text \<open>
  \<open>AudioBufferGroup\<close> keeps an unordered map from relative file paths to OpenAL buffer
  handles and drives three collaborators that are not part of the file: the filesystem
  (boost), the audio backend (OpenAL and ALURE) and the parent \<open>AudioManager\<close>. The
  member functions are embedded as state transformers. The collaborators are a parameter
  of every function, so each theorem holds for every behaviour they may have.
\<close>

subsection \<open>Data\<close>

text \<open>\<open>ALuint\<close> is OpenAL's unsigned 32-bit handle; \<open>AL_NONE\<close> is the null buffer.\<close>

type_synonym ALuint = "32 word"

definition AL_NONE :: ALuint where
  "AL_NONE = 0"

text \<open>The severities of \<open>Ogre::LogMessageLevel\<close>.\<close>

datatype LogMessageLevel = LML_TRIVIAL | LML_NORMAL | LML_CRITICAL

text \<open>
  Every call that leaves the class is recorded, in order, with the argument that
  identifies it: the path for the filesystem and the decoder, the handle for OpenAL and
  the manager, the severity for \<open>AppUtility::fLogMessage\<close> (the message text is not
  modelled).
\<close>

datatype call =
    FsExists string
  | FsIsRegularFile string
  | AlureCreateBufferFromFile string
  | AlureGetErrorString
  | AlDeleteBuffers ALuint
  | AlIsBuffer ALuint
  | PurgeBufferFromSources ALuint
  | FLogMessage LogMessageLevel

text \<open>
  The collaborators, over a state \<open>'w\<close> of their own (files on disk, the OpenAL context,
  the manager's sources). The two filesystem predicates and \<open>alIsBuffer\<close> only read that
  state; buffer creation, deletion and the manager's purge may change it.
  The source calls the overloads of \<open>boost::filesystem::exists\<close> and \<open>is_regular_file\<close>
  that take only the path. They throw \<open>filesystem_error\<close> when the status of the path
  cannot be determined (any error other than the file not being there: a name that is
  too long, a directory that may not be searched, a loop of links). The result is \<open>None\<close>
  where they throw.
  \<open>purgeBufferFromSources\<close> receives the group by reference in the source; it is taken
  to act on the sources only. \<open>verify_files_exist_default\<close> is the default argument of
  \<open>loadBuffer\<close>, which is declared in \<open>AudioBufferGroup.h\<close>.
\<close>

record 'w collaborators =
  fs_exists :: "string \<Rightarrow> 'w \<Rightarrow> bool option"
  fs_is_regular_file :: "string \<Rightarrow> 'w \<Rightarrow> bool option"
  alureCreateBufferFromFile :: "string \<Rightarrow> 'w \<Rightarrow> ALuint \<times> 'w"
  alDeleteBuffers :: "ALuint \<Rightarrow> 'w \<Rightarrow> 'w"
  alIsBuffer :: "ALuint \<Rightarrow> 'w \<Rightarrow> bool"
  purgeBufferFromSources :: "ALuint \<Rightarrow> 'w \<Rightarrow> 'w"
  verify_files_exist_default :: bool

text \<open>
  The members of the class, followed by the collaborators' state \<open>world\<close> and the
  record of calls made so far. \<open>m_Buffers\<close> is the \<open>boost::unordered_map\<close>, as an
  association list in iteration order; its keys are distinct in every state the class
  can build. An iterator into the map is modelled by the key of the entry it points to.
\<close>

record 'w AudioBufferGroup =
  m_IsParentAudioManagerValid :: bool
  m_GroupName :: string
  m_PathPrefix :: string
  m_Buffers :: "(string \<times> ALuint) list"
  m_BufferGroupLoaded :: bool
  world :: 'w
  calls :: "call list"

text \<open>
  The ways in which \<open>addBuffer\<close>, \<open>loadBuffer\<close> and \<open>loadBuffers\<close> can end without
  returning. Nothing in the file catches the exception of a filesystem test, so it leaves
  the member function; the members are changed in place, so the group is then in the
  state it had at the throw, which the error carries. Dereferencing an iterator that
  points to no entry is undefined behaviour in C++.
\<close>

datatype 's failure = Filesystem_error 's | Invalid_iterator

subsection \<open>Operations\<close>

text \<open>Lines 37-47.\<close>

definition getBuffer :: "'w AudioBufferGroup \<Rightarrow> string \<Rightarrow> ALuint" where
  "getBuffer s file_path =
     (case map_of (m_Buffers s) file_path of
        Some found_buffer \<Rightarrow> found_buffer
      | None \<Rightarrow> 0)"

text \<open>
  The test \<open>!exists(p) || !is_regular_file(p)\<close> of lines 71 and 168: the result and the
  calls made. The second predicate is not evaluated when the first already decides. The
  result is \<open>None\<close> when one of the two calls throws.
\<close>

definition not_an_actual_file ::
  "'w collaborators \<Rightarrow> string \<Rightarrow> 'w \<Rightarrow> bool option \<times> call list" where
  "not_an_actual_file B full_file_path w =
     (case fs_exists B full_file_path w of
        None \<Rightarrow> (None, [FsExists full_file_path])
      | Some False \<Rightarrow> (Some True, [FsExists full_file_path])
      | Some True \<Rightarrow>
          (case fs_is_regular_file B full_file_path w of
             None \<Rightarrow> (None, [FsExists full_file_path, FsIsRegularFile full_file_path])
           | Some regular \<Rightarrow>
               (Some (\<not> regular),
                [FsExists full_file_path, FsIsRegularFile full_file_path])))"

text \<open>
  Lines 146-192. A value \<open>Inr (result, state)\<close> is a return; \<open>Inl\<close> is one of the
  failures above.
\<close>

definition loadBuffer ::
  "'w collaborators \<Rightarrow> string \<Rightarrow> bool \<Rightarrow> 'w AudioBufferGroup
     \<Rightarrow> 'w AudioBufferGroup failure + bool \<times> 'w AudioBufferGroup" where
  "loadBuffer B buffer_to_load verify_files_exist s =
     (if \<not> m_IsParentAudioManagerValid s then Inr (False, s)
      else case map_of (m_Buffers s) buffer_to_load of
        None \<Rightarrow> Inl Invalid_iterator
      | Some h \<Rightarrow>
          if h \<noteq> 0 then Inr (False, s\<lparr>calls := calls s @ [FLogMessage LML_NORMAL]\<rparr>)
          else
            let (missing, cs) =
                  (if verify_files_exist
                   then not_an_actual_file B (m_PathPrefix s @ buffer_to_load) (world s)
                   else (Some False, []))
            in case missing of
                 None \<Rightarrow> Inl (Filesystem_error (s\<lparr>calls := calls s @ cs\<rparr>))
               | Some True \<Rightarrow>
                   Inr (False, s\<lparr>calls := calls s @ cs @ [FLogMessage LML_CRITICAL]\<rparr>)
               | Some False \<Rightarrow>
                 let (new_buffer, w') = alureCreateBufferFromFile B buffer_to_load (world s)
                 in if new_buffer = AL_NONE
                    then Inr (False,
                           s\<lparr>world := w',
                             calls := calls s @ cs @
                               [AlureCreateBufferFromFile buffer_to_load,
                                AlureGetErrorString, FLogMessage LML_CRITICAL]\<rparr>)
                    else Inr (True,
                           s\<lparr>m_Buffers := AList.update buffer_to_load new_buffer (m_Buffers s),
                             world := w',
                             calls := calls s @ cs @
                               [AlureCreateBufferFromFile buffer_to_load]\<rparr>))"



text \<open>
  Lines 207-235. \<open>unloadBuffer\<close>, \<open>unloadBuffers\<close> and \<open>removeBuffer\<close> make no filesystem
  test, so nothing is thrown in them; their result is \<open>None\<close> where an iterator that
  points to no entry is dereferenced.
\<close>

definition unloadBuffer ::
  "'w collaborators \<Rightarrow> string \<Rightarrow> 'w AudioBufferGroup \<Rightarrow> (bool \<times> 'w AudioBufferGroup) option" where
  "unloadBuffer B buffer_to_load s =
     (if \<not> m_IsParentAudioManagerValid s then Some (False, s)
      else case map_of (m_Buffers s) buffer_to_load of
        None \<Rightarrow> None
      | Some h \<Rightarrow>
          if h \<noteq> 0 then
            let w' = alDeleteBuffers B h (world s)
            in if \<not> alIsBuffer B h w'
               then Some (True,
                      s\<lparr>m_Buffers := AList.update buffer_to_load 0 (m_Buffers s),
                        world := w',
                        calls := calls s @ [AlDeleteBuffers h, AlIsBuffer h]\<rparr>)
               else Some (False,
                      s\<lparr>world := w',
                        calls := calls s @
                          [AlDeleteBuffers h, AlIsBuffer h,
                           AlureGetErrorString, FLogMessage LML_CRITICAL]\<rparr>)
          else Some (True, s))"

text \<open>Lines 237-248, in the same way.\<close>

fun unloadBuffers_loop ::
  "'w collaborators \<Rightarrow> string list \<Rightarrow> 'w AudioBufferGroup \<Rightarrow> int
     \<Rightarrow> (int \<times> 'w AudioBufferGroup) option" where
  "unloadBuffers_loop B [] s failed_unload_count = Some (failed_unload_count, s)"
| "unloadBuffers_loop B (iter # rest) s failed_unload_count =
     (case unloadBuffer B iter s of
        None \<Rightarrow> None
      | Some (ok, s') \<Rightarrow>
          unloadBuffers_loop B rest s'
            (if ok then failed_unload_count else failed_unload_count + 1))"

definition unloadBuffers ::
  "'w collaborators \<Rightarrow> 'w AudioBufferGroup \<Rightarrow> (int \<times> 'w AudioBufferGroup) option" where
  "unloadBuffers B s =
     unloadBuffers_loop B (map fst (m_Buffers s)) (s\<lparr>m_BufferGroupLoaded := False\<rparr>) 0"

text \<open>
  Lines 60-99. \<open>emplace\<close> inserts only when the key is absent. The model puts the new
  entry at the end of the iteration order; where the hash table puts it is not
  specified, and no property below depends on it. The call of line 95 passes no second
  argument.
\<close>

definition addBuffer ::
  "'w collaborators \<Rightarrow> string \<Rightarrow> 'w AudioBufferGroup
     \<Rightarrow> 'w AudioBufferGroup failure + bool \<times> 'w AudioBufferGroup" where
  "addBuffer B file_path s =
     (if \<not> m_IsParentAudioManagerValid s then Inr (False, s)
      else
        let (missing, cs) = not_an_actual_file B (m_PathPrefix s @ file_path) (world s)
        in case missing of
             None \<Rightarrow> Inl (Filesystem_error (s\<lparr>calls := calls s @ cs\<rparr>))
           | Some True \<Rightarrow>
               Inr (False, s\<lparr>calls := calls s @ cs @ [FLogMessage LML_CRITICAL]\<rparr>)
           | Some False \<Rightarrow>
              (case map_of (m_Buffers s) file_path of
                 Some h \<Rightarrow>
                   Inr (False, s\<lparr>calls := calls s @ cs @ [FLogMessage LML_NORMAL]\<rparr>)
               | None \<Rightarrow>
                   let s1 = s\<lparr>m_Buffers := m_Buffers s @ [(file_path, 0)],
                              calls := calls s @ cs\<rparr>
                   in if m_BufferGroupLoaded s1
                      then loadBuffer B file_path (verify_files_exist_default B) s1
                      else Inr (True, s1)))"

text \<open>
  Lines 113-126. The result of \<open>unloadBuffer\<close> is not used. \<open>erase\<close> removes the entry
  the iterator points to, the only one with that key.
\<close>

definition removeBuffer ::
  "'w collaborators \<Rightarrow> string \<Rightarrow> 'w AudioBufferGroup \<Rightarrow> 'w AudioBufferGroup option" where
  "removeBuffer B file_path s =
     (if m_IsParentAudioManagerValid s then
        (case map_of (m_Buffers s) file_path of
           None \<Rightarrow> Some s
         | Some h \<Rightarrow>
             (case unloadBuffer B file_path
                     (s\<lparr>world := purgeBufferFromSources B h (world s),
                        calls := calls s @ [PurgeBufferFromSources h]\<rparr>) of
                None \<Rightarrow> None
              | Some (ok, s') \<Rightarrow> Some (s'\<lparr>m_Buffers := AList.delete file_path (m_Buffers s')\<rparr>)))
      else Some s)"

subsection \<open>A deterministic backend for evaluating the operations\<close>

text \<open>
  Files that exist, files the decoder accepts, live buffers, buffers attached to a source,
  and the next free handle. Deleting an attached buffer fails, as in OpenAL. The status
  of a path of more than 255 characters cannot be determined (the name is too long), so
  the filesystem tests throw on it.
\<close>

record sim =
  sim_files :: "string list"
  sim_decodable :: "string list"
  sim_live :: "ALuint list"
  sim_attached :: "ALuint list"
  sim_next :: ALuint

definition sim_collaborators :: "sim collaborators" where
  "sim_collaborators =
     \<lparr> fs_exists = (\<lambda>p w. if 255 < length p then None else Some (p \<in> set (sim_files w))),
       fs_is_regular_file =
         (\<lambda>p w. if 255 < length p then None else Some (p \<in> set (sim_files w))),
       alureCreateBufferFromFile = (\<lambda>p w.
          if p \<in> set (sim_decodable w)
          then (sim_next w, w\<lparr>sim_live := sim_next w # sim_live w, sim_next := sim_next w + 1\<rparr>)
          else (0, w)),
       alDeleteBuffers = (\<lambda>h w.
          if h \<in> set (sim_attached w) then w else w\<lparr>sim_live := removeAll h (sim_live w)\<rparr>),
       alIsBuffer = (\<lambda>h w. h \<in> set (sim_live w)),
       purgeBufferFromSources = (\<lambda>h w. w\<lparr>sim_attached := removeAll h (sim_attached w)\<rparr>),
       verify_files_exist_default = False \<rparr>"

definition sim_group ::
  "bool \<Rightarrow> string \<Rightarrow> (string \<times> ALuint) list \<Rightarrow> bool \<Rightarrow> sim \<Rightarrow> sim AudioBufferGroup" where
  "sim_group valid prefix buffers loaded w =
     \<lparr> m_IsParentAudioManagerValid = valid, m_GroupName = ''sfx'', m_PathPrefix = prefix,
       m_Buffers = buffers, m_BufferGroupLoaded = loaded, world = w, calls = [] \<rparr>"

section \<open>Properties\<close>

subsection \<open>Auxiliary facts\<close>

lemma not_an_actual_file_present:
  "fs_exists B p w = Some True \<Longrightarrow> fs_is_regular_file B p w = Some True \<Longrightarrow>
     not_an_actual_file B p w = (Some False, [FsExists p, FsIsRegularFile p])"
  by (simp add: not_an_actual_file_def)

lemma not_an_actual_file_calls:
  "\<exists>rest. snd (not_an_actual_file B p w) = FsExists p # rest
      \<and> set rest \<subseteq> {FsIsRegularFile p}"
  by (simp add: not_an_actual_file_def split: option.splits bool.splits)

text \<open>The three results of the test, in terms of the two calls.\<close>

lemma not_an_actual_file_throws:
  "fst (not_an_actual_file B p w) = None \<longleftrightarrow>
     fs_exists B p w = None
     \<or> fs_exists B p w = Some True \<and> fs_is_regular_file B p w = None"
  by (auto simp add: not_an_actual_file_def split: option.splits bool.splits)

lemma not_an_actual_file_missing:
  "fst (not_an_actual_file B p w) = Some True \<longleftrightarrow>
     fs_exists B p w = Some False
     \<or> fs_exists B p w = Some True \<and> fs_is_regular_file B p w = Some False"
  by (auto simp add: not_an_actual_file_def split: option.splits bool.splits)

lemma not_an_actual_file_found:
  "fst (not_an_actual_file B p w) = Some False \<longleftrightarrow>
     fs_exists B p w = Some True \<and> fs_is_regular_file B p w = Some True"
  by (auto simp add: not_an_actual_file_def split: option.splits bool.splits)

lemma update_appended:
  "map_of xs k = None \<Longrightarrow> AList.update k v (xs @ [(k, u)]) = xs @ [(k, v)]"
  by (induction xs) (auto split: if_splits)

lemma map_of_appended:
  "map_of xs k = None \<Longrightarrow> map_of (xs @ [(k, v)]) = (map_of xs)(k \<mapsto> v)"
  by (auto simp add: fun_eq_iff map_add_def split: option.splits)

text \<open>
  What \<open>loadBuffer\<close> does once its guards are passed: the manager is valid, the entry
  is unloaded, and the file is there when the caller asks for the check.
\<close>

lemma loadBuffer_reaches_backend:
  assumes "m_IsParentAudioManagerValid s" and "map_of (m_Buffers s) it = Some 0"
    and "verify \<longrightarrow> fs_exists B (m_PathPrefix s @ it) (world s) = Some True
                 \<and> fs_is_regular_file B (m_PathPrefix s @ it) (world s) = Some True"
  shows "loadBuffer B it verify s =
     (let cs = (if verify then [FsExists (m_PathPrefix s @ it),
                                FsIsRegularFile (m_PathPrefix s @ it)] else []);
          new_buffer = fst (alureCreateBufferFromFile B it (world s));
          w' = snd (alureCreateBufferFromFile B it (world s))
      in if new_buffer = AL_NONE
         then Inr (False, s\<lparr>world := w',
                calls := calls s @ cs @ [AlureCreateBufferFromFile it,
                                         AlureGetErrorString, FLogMessage LML_CRITICAL]\<rparr>)
         else Inr (True, s\<lparr>m_Buffers := AList.update it new_buffer (m_Buffers s),
                world := w', calls := calls s @ cs @ [AlureCreateBufferFromFile it]\<rparr>))"
  using assms
  by (cases verify)
     (simp_all add: loadBuffer_def Let_def not_an_actual_file_present split: prod.splits)

text \<open>
  The keys of the map stay distinct under every operation on a single entry, also when
  it throws, and \<open>addBuffer\<close> dereferences no invalid iterator: the one it hands to
  \<open>loadBuffer\<close> points to the entry just inserted.
\<close>

lemma loadBuffer_distinct:
  "loadBuffer B it verify s = Inr (ok, s') \<or> loadBuffer B it verify s = Inl (Filesystem_error s')
     \<Longrightarrow> distinct (map fst (m_Buffers s))
     \<Longrightarrow> distinct (map fst (m_Buffers s'))"
  by (auto simp add: loadBuffer_def Let_def AList.distinct_update
        split: if_splits option.splits prod.splits bool.splits)

lemma unloadBuffer_distinct:
  "unloadBuffer B it s = Some (ok, s') \<Longrightarrow> distinct (map fst (m_Buffers s))
     \<Longrightarrow> distinct (map fst (m_Buffers s'))"
  by (auto simp add: unloadBuffer_def Let_def AList.distinct_update
        split: if_splits option.splits)

lemma addBuffer_distinct:
  assumes "addBuffer B p s = Inr (ok, s') \<or> addBuffer B p s = Inl (Filesystem_error s')"
    and "distinct (map fst (m_Buffers s))"
  shows "distinct (map fst (m_Buffers s'))"
proof -
  have ins: "distinct (map fst (m_Buffers s @ [(p, 0)]))" if "map_of (m_Buffers s) p = None"
    using that assms(2) by (simp add: map_of_eq_None_iff)
  show ?thesis
    using assms ins
    by (auto simp add: addBuffer_def Let_def
          split: if_splits option.splits prod.splits bool.splits
          dest!: loadBuffer_distinct[OF disjI1] loadBuffer_distinct[OF disjI2])
qed

lemma removeBuffer_distinct:
  "removeBuffer B p s = Some s' \<Longrightarrow> distinct (map fst (m_Buffers s))
     \<Longrightarrow> distinct (map fst (m_Buffers s'))"
  by (auto simp add: removeBuffer_def AList.distinct_delete
        split: if_splits option.splits prod.splits dest!: unloadBuffer_distinct)

lemma addBuffer_iterator_valid: "addBuffer B p s \<noteq> Inl Invalid_iterator"
  by (auto simp add: addBuffer_def loadBuffer_def Let_def map_add_def
        split: prod.splits option.splits bool.splits)

subsection \<open>Single entries\<close>

text \<open>
  C1, as stated, fails: the filesystem test of line 71 comes before the test for a
  duplicate and can throw. Here the registered path is 300 characters long, the status
  of the prefixed path cannot be determined, and \<open>addBuffer\<close> ends with the exception
  instead of returning \<open>False\<close>.
\<close>

theorem addBuffer_duplicate_throws_counterexample:
  "map_of (m_Buffers (sim_group True ''d/'' [(replicate 300 CHR ''x'', 7)] False
      \<lparr>sim_files = [], sim_decodable = [], sim_live = [7], sim_attached = [],
        sim_next = 8\<rparr>)) (replicate 300 CHR ''x'') = Some 7
   \<and> addBuffer sim_collaborators (replicate 300 CHR ''x'')
       (sim_group True ''d/'' [(replicate 300 CHR ''x'', 7)] False
         \<lparr>sim_files = [], sim_decodable = [], sim_live = [7], sim_attached = [],
           sim_next = 8\<rparr>)
     = Inl (Filesystem_error
         ((sim_group True ''d/'' [(replicate 300 CHR ''x'', 7)] False
           \<lparr>sim_files = [], sim_decodable = [], sim_live = [7], sim_attached = [],
             sim_next = 8\<rparr>)
         \<lparr>calls := [FsExists (''d/'' @ replicate 300 CHR ''x'')]\<rparr>))"
  by (simp add: sim_group_def sim_collaborators_def addBuffer_def not_an_actual_file_def)

text \<open>
  C1, amended. Adding a path that is already registered never changes the map: the
  state at the end differs from the one before only in the record of calls, which gains
  at most the two filesystem tests of the prefixed path and one log message. When the
  manager is valid and one of the two tests throws, the exception leaves \<open>addBuffer\<close>;
  in every other case \<open>addBuffer\<close> returns \<open>False\<close>.
\<close>

theorem addBuffer_duplicate:
  assumes "map_of (m_Buffers s) p = Some h"
  shows "\<exists>s' cs. s' = s\<lparr>calls := calls s @ cs\<rparr>
           \<and> m_Buffers s' = m_Buffers s
           \<and> set cs \<subseteq> {FsExists (m_PathPrefix s @ p), FsIsRegularFile (m_PathPrefix s @ p),
                        FLogMessage LML_CRITICAL, FLogMessage LML_NORMAL}
           \<and> addBuffer B p s =
               (if m_IsParentAudioManagerValid s
                   \<and> (fs_exists B (m_PathPrefix s @ p) (world s) = None
                      \<or> fs_exists B (m_PathPrefix s @ p) (world s) = Some True
                        \<and> fs_is_regular_file B (m_PathPrefix s @ p) (world s) = None)
                then Inl (Filesystem_error s')
                else Inr (False, s'))"
proof (cases "m_IsParentAudioManagerValid s")
  case False
  then have "addBuffer B p s = Inr (False, s\<lparr>calls := calls s @ []\<rparr>)"
    by (simp add: addBuffer_def)
  with False show ?thesis by (intro exI[of _ "s\<lparr>calls := calls s @ []\<rparr>"] exI[of _ "[]"]) simp
next
  case True
  let ?full = "m_PathPrefix s @ p"
  obtain missing cs where m: "not_an_actual_file B ?full (world s) = (missing, cs)"
    by (cases "not_an_actual_file B ?full (world s)")
  then have cs: "set cs \<subseteq> {FsExists ?full, FsIsRegularFile ?full}"
    by (auto simp: not_an_actual_file_def split: option.splits bool.splits)
  have thr: "missing = None \<longleftrightarrow>
     fs_exists B ?full (world s) = None
     \<or> fs_exists B ?full (world s) = Some True \<and> fs_is_regular_file B ?full (world s) = None"
    using not_an_actual_file_throws[of B ?full "world s"] m by simp
  show ?thesis
  proof (cases missing)
    case None
    with True m
    have "addBuffer B p s = Inl (Filesystem_error (s\<lparr>calls := calls s @ cs\<rparr>))"
      by (simp add: addBuffer_def)
    with cs True thr None show ?thesis
      by (intro exI[of _ "s\<lparr>calls := calls s @ cs\<rparr>"] exI[of _ cs]) auto
  next
    case (Some b)
    let ?cs = "cs @ [FLogMessage (if b then LML_CRITICAL else LML_NORMAL)]"
    from Some True m assms
    have "addBuffer B p s = Inr (False, s\<lparr>calls := calls s @ ?cs\<rparr>)"
      by (cases b) (simp_all add: addBuffer_def)
    with cs True thr Some show ?thesis
      by (intro exI[of _ "s\<lparr>calls := calls s @ ?cs\<rparr>"] exI[of _ ?cs]) auto
  qed
qed

theorem addBuffer_duplicate_witness:
  "map_of (m_Buffers (sim_group True ''d/'' [(''a'', 7)] False
      \<lparr>sim_files = [''d/a''], sim_decodable = [], sim_live = [7], sim_attached = [],
        sim_next = 8\<rparr>)) ''a'' = Some 7
   \<and> addBuffer sim_collaborators ''a''
       (sim_group True ''d/'' [(''a'', 7)] False
         \<lparr>sim_files = [''d/a''], sim_decodable = [], sim_live = [7], sim_attached = [],
           sim_next = 8\<rparr>)
     = Inr (False,
         (sim_group True ''d/'' [(''a'', 7)] False
           \<lparr>sim_files = [''d/a''], sim_decodable = [], sim_live = [7], sim_attached = [],
             sim_next = 8\<rparr>)
         \<lparr>calls := [FsExists ''d/a'', FsIsRegularFile ''d/a'', FLogMessage LML_NORMAL]\<rparr>)"
  using addBuffer_duplicate
    [of "sim_group True ''d/'' [(''a'', 7)] False
          \<lparr>sim_files = [''d/a''], sim_decodable = [], sim_live = [7], sim_attached = [],
            sim_next = 8\<rparr>"
        "''a''" 7 sim_collaborators]
  by (simp add: sim_group_def sim_collaborators_def addBuffer_def not_an_actual_file_def)

text \<open>
  C2. Loading an entry whose handle is non-zero fails and changes nothing: the result is
  \<open>False\<close>, and the state is the one before, except that a group with a valid manager
  has logged one message. The map, the loaded-flag and the collaborators' state are the
  same, and no call to the filesystem, the backend or the manager is made.
\<close>

theorem loadBuffer_already_loaded:
  assumes "map_of (m_Buffers s) it = Some h" and "h \<noteq> 0"
  shows "loadBuffer B it verify s =
           Inr (False, s\<lparr>calls := calls s @
                    (if m_IsParentAudioManagerValid s then [FLogMessage LML_NORMAL] else [])\<rparr>)"
  using assms by (simp add: loadBuffer_def)

theorem loadBuffer_already_loaded_witness:
  "loadBuffer sim_collaborators ''a'' True
     (sim_group True ''d/'' [(''a'', 7)] True
        \<lparr>sim_files = [], sim_decodable = [], sim_live = [7], sim_attached = [], sim_next = 8\<rparr>)
   = Inr (False,
       (sim_group True ''d/'' [(''a'', 7)] True
         \<lparr>sim_files = [], sim_decodable = [], sim_live = [7], sim_attached = [], sim_next = 8\<rparr>)
       \<lparr>calls := [FLogMessage LML_NORMAL]\<rparr>)"
  using loadBuffer_already_loaded
    [of "sim_group True ''d/'' [(''a'', 7)] True
          \<lparr>sim_files = [], sim_decodable = [], sim_live = [7], sim_attached = [], sim_next = 8\<rparr>"
        "''a''" 7 sim_collaborators True]
  by (simp add: sim_group_def)

text \<open>
  C3. Unloading an entry with a non-zero handle that the backend still reports as a
  buffer after the deletion request fails and keeps the handle: the result is \<open>False\<close>
  and the map is the one before. With a valid manager the deletion is requested once and
  the validity is tested once; nothing further is tried.
\<close>

theorem unloadBuffer_still_valid:
  assumes "map_of (m_Buffers s) it = Some h" and "h \<noteq> 0"
    and "alIsBuffer B h (alDeleteBuffers B h (world s))"
  shows "\<exists>s'. unloadBuffer B it s = Some (False, s')
           \<and> m_Buffers s' = m_Buffers s
           \<and> map_of (m_Buffers s') it = Some h
           \<and> calls s' = calls s @
                (if m_IsParentAudioManagerValid s
                 then [AlDeleteBuffers h, AlIsBuffer h, AlureGetErrorString,
                       FLogMessage LML_CRITICAL]
                 else [])"
  using assms by (simp add: unloadBuffer_def Let_def)

theorem unloadBuffer_still_valid_witness:
  "alIsBuffer sim_collaborators 7
     (alDeleteBuffers sim_collaborators 7
        \<lparr>sim_files = [], sim_decodable = [], sim_live = [7], sim_attached = [7], sim_next = 8\<rparr>)
   \<and> unloadBuffer sim_collaborators ''a''
       (sim_group True ''d/'' [(''a'', 7)] True
         \<lparr>sim_files = [], sim_decodable = [], sim_live = [7], sim_attached = [7], sim_next = 8\<rparr>)
     = Some (False,
         (sim_group True ''d/'' [(''a'', 7)] True
           \<lparr>sim_files = [], sim_decodable = [], sim_live = [7], sim_attached = [7],
             sim_next = 8\<rparr>)
         \<lparr>calls := [AlDeleteBuffers 7, AlIsBuffer 7, AlureGetErrorString,
                     FLogMessage LML_CRITICAL]\<rparr>)"
  using unloadBuffer_still_valid
    [of "sim_group True ''d/'' [(''a'', 7)] True
          \<lparr>sim_files = [], sim_decodable = [], sim_live = [7], sim_attached = [7], sim_next = 8\<rparr>"
        "''a''" 7 sim_collaborators]
  by (simp add: sim_group_def sim_collaborators_def unloadBuffer_def)

text \<open>
  C4. Removing a registered path from a group with a valid manager first has the manager
  purge the sources of the entry's handle, then unloads the entry on the purged state,
  then erases it: the purge is the first call recorded, the deletion request (made only
  for a non-zero handle) comes after it, the entry is gone and \<open>getBuffer\<close> gives 0.
  With an invalid manager or an unregistered path the state is returned as it was.
\<close>

theorem removeBuffer_registered:
  "(m_IsParentAudioManagerValid s \<and> map_of (m_Buffers s) p = Some h
    \<longrightarrow> (\<exists>s'. removeBuffer B p s = Some s'
           \<and> m_Buffers s' = AList.delete p (m_Buffers s)
           \<and> getBuffer s' p = 0
           \<and> world s' =
               (if h = 0 then purgeBufferFromSources B h (world s)
                else alDeleteBuffers B h (purgeBufferFromSources B h (world s)))
           \<and> calls s' = calls s @ PurgeBufferFromSources h #
               (if h = 0 then []
                else if alIsBuffer B h
                          (alDeleteBuffers B h (purgeBufferFromSources B h (world s)))
                then [AlDeleteBuffers h, AlIsBuffer h, AlureGetErrorString,
                      FLogMessage LML_CRITICAL]
                else [AlDeleteBuffers h, AlIsBuffer h])))
   \<and> (\<not> m_IsParentAudioManagerValid s \<or> map_of (m_Buffers s) p = None
    \<longrightarrow> removeBuffer B p s = Some s)"
  by (auto simp add: removeBuffer_def unloadBuffer_def Let_def getBuffer_def
        AList.delete_conv' AList.delete_update_same)

theorem removeBuffer_registered_witness:
  "removeBuffer sim_collaborators ''a''
     (sim_group True ''d/'' [(''a'', 7), (''b'', 0)] True
        \<lparr>sim_files = [], sim_decodable = [], sim_live = [7], sim_attached = [7], sim_next = 8\<rparr>)
   = Some ((sim_group True ''d/'' [(''b'', 0)] True
        \<lparr>sim_files = [], sim_decodable = [], sim_live = [], sim_attached = [], sim_next = 8\<rparr>)
      \<lparr>calls := [PurgeBufferFromSources 7, AlDeleteBuffers 7, AlIsBuffer 7]\<rparr>)
   \<and> getBuffer (sim_group True ''d/'' [(''b'', 0)] True
        \<lparr>sim_files = [], sim_decodable = [], sim_live = [], sim_attached = [], sim_next = 8\<rparr>)
        ''a'' = 0
   \<and> removeBuffer sim_collaborators ''c''
     (sim_group True ''d/'' [(''a'', 7), (''b'', 0)] True
        \<lparr>sim_files = [], sim_decodable = [], sim_live = [7], sim_attached = [7], sim_next = 8\<rparr>)
   = Some (sim_group True ''d/'' [(''a'', 7), (''b'', 0)] True
        \<lparr>sim_files = [], sim_decodable = [], sim_live = [7], sim_attached = [7], sim_next = 8\<rparr>)"
  using removeBuffer_registered
    [of "sim_group True ''d/'' [(''a'', 7), (''b'', 0)] True
          \<lparr>sim_files = [], sim_decodable = [], sim_live = [7], sim_attached = [7], sim_next = 8\<rparr>"
        "''a''" 7 sim_collaborators]
    removeBuffer_registered
    [of "sim_group True ''d/'' [(''a'', 7), (''b'', 0)] True
          \<lparr>sim_files = [], sim_decodable = [], sim_live = [7], sim_attached = [7], sim_next = 8\<rparr>"
        "''c''" 0 sim_collaborators]
  by (simp add: sim_group_def sim_collaborators_def removeBuffer_def unloadBuffer_def
        getBuffer_def)

text \<open>
  C5. Loading an unloaded entry for which the backend's buffer creation gives the null
  handle fails and leaves the registry as it was: the result is \<open>False\<close>, the entry's
  handle is still 0, and the map, the loaded-flag and the validity flag are unchanged.
  The backend is reached only after the file test, where one is made, has returned; so
  the filesystem tests of a valid group that is asked to verify are taken not to throw.
\<close>

theorem loadBuffer_backend_failure:
  assumes "map_of (m_Buffers s) it = Some 0"
    and "fst (alureCreateBufferFromFile B it (world s)) = AL_NONE"
    and "m_IsParentAudioManagerValid s \<and> verify
          \<longrightarrow> fst (not_an_actual_file B (m_PathPrefix s @ it) (world s)) \<noteq> None"
  shows "\<exists>s'. loadBuffer B it verify s = Inr (False, s')
           \<and> m_Buffers s' = m_Buffers s
           \<and> map_of (m_Buffers s') it = Some 0
           \<and> m_BufferGroupLoaded s' = m_BufferGroupLoaded s
           \<and> m_IsParentAudioManagerValid s' = m_IsParentAudioManagerValid s"
  using assms
  by (auto simp add: loadBuffer_def Let_def split: prod.splits option.splits bool.splits)

theorem loadBuffer_backend_failure_witness:
  "fst (alureCreateBufferFromFile sim_collaborators ''a''
     \<lparr>sim_files = [''d/a''], sim_decodable = [], sim_live = [], sim_attached = [],
       sim_next = 8\<rparr>) = AL_NONE
   \<and> fst (not_an_actual_file sim_collaborators ''d/a''
     \<lparr>sim_files = [''d/a''], sim_decodable = [], sim_live = [], sim_attached = [],
       sim_next = 8\<rparr>) = Some False
   \<and> loadBuffer sim_collaborators ''a'' True
       (sim_group True ''d/'' [(''a'', 0)] True
         \<lparr>sim_files = [''d/a''], sim_decodable = [], sim_live = [], sim_attached = [],
           sim_next = 8\<rparr>)
     = Inr (False,
         (sim_group True ''d/'' [(''a'', 0)] True
           \<lparr>sim_files = [''d/a''], sim_decodable = [], sim_live = [], sim_attached = [],
             sim_next = 8\<rparr>)
         \<lparr>calls := [FsExists ''d/a'', FsIsRegularFile ''d/a'', AlureCreateBufferFromFile ''a'',
                     AlureGetErrorString, FLogMessage LML_CRITICAL]\<rparr>)"
  using loadBuffer_backend_failure
    [of "sim_group True ''d/'' [(''a'', 0)] True
          \<lparr>sim_files = [''d/a''], sim_decodable = [], sim_live = [], sim_attached = [],
            sim_next = 8\<rparr>"
        "''a''" sim_collaborators True]
  by (simp add: sim_group_def sim_collaborators_def loadBuffer_def not_an_actual_file_def
        AL_NONE_def)

text \<open>
  C6, as stated, fails: a group in the loaded state with a valid manager, whose prefixed
  path names a regular file that the backend cannot decode under the relative path.
  \<open>addBuffer\<close> inserts the entry with handle 0 and then returns \<open>False\<close>, the result of
  the failed load.
\<close>

theorem addBuffer_loaded_group_counterexample:
  "m_IsParentAudioManagerValid (sim_group True ''d/'' [] True
      \<lparr>sim_files = [''d/a''], sim_decodable = [], sim_live = [], sim_attached = [],
        sim_next = 8\<rparr>)
   \<and> m_BufferGroupLoaded (sim_group True ''d/'' [] True
      \<lparr>sim_files = [''d/a''], sim_decodable = [], sim_live = [], sim_attached = [],
        sim_next = 8\<rparr>)
   \<and> map_of (m_Buffers (sim_group True ''d/'' [] True
      \<lparr>sim_files = [''d/a''], sim_decodable = [], sim_live = [], sim_attached = [],
        sim_next = 8\<rparr>)) ''a'' = None
   \<and> fs_exists sim_collaborators ''d/a''
      \<lparr>sim_files = [''d/a''], sim_decodable = [], sim_live = [], sim_attached = [],
        sim_next = 8\<rparr> = Some True
   \<and> fs_is_regular_file sim_collaborators ''d/a''
      \<lparr>sim_files = [''d/a''], sim_decodable = [], sim_live = [], sim_attached = [],
        sim_next = 8\<rparr> = Some True
   \<and> addBuffer sim_collaborators ''a''
       (sim_group True ''d/'' [] True
         \<lparr>sim_files = [''d/a''], sim_decodable = [], sim_live = [], sim_attached = [],
           sim_next = 8\<rparr>)
     = Inr (False,
         (sim_group True ''d/'' [(''a'', 0)] True
           \<lparr>sim_files = [''d/a''], sim_decodable = [], sim_live = [], sim_attached = [],
             sim_next = 8\<rparr>)
         \<lparr>calls := [FsExists ''d/a'', FsIsRegularFile ''d/a'', AlureCreateBufferFromFile ''a'',
                     AlureGetErrorString, FLogMessage LML_CRITICAL]\<rparr>)"
  by (simp add: sim_group_def sim_collaborators_def addBuffer_def loadBuffer_def
        not_an_actual_file_def AL_NONE_def)

text \<open>
  C6, amended. For a path that is not registered: \<open>addBuffer\<close> returns \<open>False\<close> without
  inserting when the manager is invalidated or the filesystem tests find that the
  prefixed path does not name an existing regular file. When the manager is valid and
  one of the two tests throws, the exception leaves \<open>addBuffer\<close>, again without
  inserting. Otherwise the path is inserted with handle 0. If the group is not in the
  loaded state the call returns \<open>True\<close>. If it is, the new entry is loaded at once and
  the call returns the result of that load: \<open>True\<close> with the entry holding the backend's
  handle when the backend creates the buffer, \<open>False\<close> with the entry still registered
  at handle 0 when it does not.
\<close>

theorem addBuffer_unregistered:
  assumes "map_of (m_Buffers s) p = None"
  shows
   "(\<not> m_IsParentAudioManagerValid s
       \<or> fs_exists B (m_PathPrefix s @ p) (world s) = Some False
       \<or> fs_exists B (m_PathPrefix s @ p) (world s) = Some True
           \<and> fs_is_regular_file B (m_PathPrefix s @ p) (world s) = Some False
     \<longrightarrow> (\<exists>s'. addBuffer B p s = Inr (False, s') \<and> m_Buffers s' = m_Buffers s
              \<and> m_BufferGroupLoaded s' = m_BufferGroupLoaded s \<and> world s' = world s))
    \<and> (m_IsParentAudioManagerValid s
         \<and> (fs_exists B (m_PathPrefix s @ p) (world s) = None
            \<or> fs_exists B (m_PathPrefix s @ p) (world s) = Some True
              \<and> fs_is_regular_file B (m_PathPrefix s @ p) (world s) = None)
     \<longrightarrow> (\<exists>s'. addBuffer B p s = Inl (Filesystem_error s') \<and> m_Buffers s' = m_Buffers s
              \<and> m_BufferGroupLoaded s' = m_BufferGroupLoaded s \<and> world s' = world s))
    \<and> (m_IsParentAudioManagerValid s
         \<and> fs_exists B (m_PathPrefix s @ p) (world s) = Some True
         \<and> fs_is_regular_file B (m_PathPrefix s @ p) (world s) = Some True
       \<longrightarrow> (if m_BufferGroupLoaded s
            then \<exists>s'. addBuffer B p s =
                        Inr (fst (alureCreateBufferFromFile B p (world s)) \<noteq> AL_NONE, s')
                   \<and> map_of (m_Buffers s') =
                        (map_of (m_Buffers s))
                          (p \<mapsto> fst (alureCreateBufferFromFile B p (world s)))
                   \<and> world s' = snd (alureCreateBufferFromFile B p (world s))
                   \<and> m_BufferGroupLoaded s'
            else \<exists>s'. addBuffer B p s = Inr (True, s')
                   \<and> map_of (m_Buffers s') = (map_of (m_Buffers s))(p \<mapsto> 0)
                   \<and> world s' = world s \<and> \<not> m_BufferGroupLoaded s'))"
proof (intro conjI impI)
  let ?full = "m_PathPrefix s @ p"
  assume a: "\<not> m_IsParentAudioManagerValid s
       \<or> fs_exists B ?full (world s) = Some False
       \<or> fs_exists B ?full (world s) = Some True
           \<and> fs_is_regular_file B ?full (world s) = Some False"
  show "\<exists>s'. addBuffer B p s = Inr (False, s') \<and> m_Buffers s' = m_Buffers s
              \<and> m_BufferGroupLoaded s' = m_BufferGroupLoaded s \<and> world s' = world s"
  proof (cases "m_IsParentAudioManagerValid s")
    case False
    then show ?thesis by (simp add: addBuffer_def)
  next
    case True
    with a have "fst (not_an_actual_file B ?full (world s)) = Some True"
      by (simp add: not_an_actual_file_missing)
    with True show ?thesis
      by (auto simp add: addBuffer_def split: prod.splits)
  qed
next
  let ?full = "m_PathPrefix s @ p"
  assume a: "m_IsParentAudioManagerValid s
         \<and> (fs_exists B ?full (world s) = None
            \<or> fs_exists B ?full (world s) = Some True
              \<and> fs_is_regular_file B ?full (world s) = None)"
  then have "fst (not_an_actual_file B ?full (world s)) = None"
    by (simp add: not_an_actual_file_throws)
  with a show "\<exists>s'. addBuffer B p s = Inl (Filesystem_error s') \<and> m_Buffers s' = m_Buffers s
              \<and> m_BufferGroupLoaded s' = m_BufferGroupLoaded s \<and> world s' = world s"
    by (auto simp add: addBuffer_def split: prod.splits)
next
  let ?full = "m_PathPrefix s @ p"
  let ?s1 = "s\<lparr>m_Buffers := m_Buffers s @ [(p, 0)],
                calls := calls s @ [FsExists ?full, FsIsRegularFile ?full]\<rparr>"
  let ?v = "verify_files_exist_default B"
  assume a: "m_IsParentAudioManagerValid s
         \<and> fs_exists B ?full (world s) = Some True
         \<and> fs_is_regular_file B ?full (world s) = Some True"
  then have nf: "not_an_actual_file B ?full (world s)
                   = (Some False, [FsExists ?full, FsIsRegularFile ?full])"
    by (simp add: not_an_actual_file_present)
  show "if m_BufferGroupLoaded s
            then \<exists>s'. addBuffer B p s =
                        Inr (fst (alureCreateBufferFromFile B p (world s)) \<noteq> AL_NONE, s')
                   \<and> map_of (m_Buffers s') =
                        (map_of (m_Buffers s))
                          (p \<mapsto> fst (alureCreateBufferFromFile B p (world s)))
                   \<and> world s' = snd (alureCreateBufferFromFile B p (world s))
                   \<and> m_BufferGroupLoaded s'
            else \<exists>s'. addBuffer B p s = Inr (True, s')
                   \<and> map_of (m_Buffers s') = (map_of (m_Buffers s))(p \<mapsto> 0)
                   \<and> world s' = world s \<and> \<not> m_BufferGroupLoaded s'"
  proof (cases "m_BufferGroupLoaded s")
    case False
    with a nf assms show ?thesis by (simp add: addBuffer_def map_of_appended del: map_of_append)
  next
    case True
    have add: "addBuffer B p s = loadBuffer B p ?v ?s1"
      using a nf assms True by (simp add: addBuffer_def)
    have m1: "map_of (m_Buffers ?s1) p = Some 0"
      using assms by (simp add: map_add_def)
    have "loadBuffer B p ?v ?s1 =
     (let cs = (if ?v then [FsExists (m_PathPrefix ?s1 @ p),
                                FsIsRegularFile (m_PathPrefix ?s1 @ p)] else []);
          new_buffer = fst (alureCreateBufferFromFile B p (world ?s1));
          w' = snd (alureCreateBufferFromFile B p (world ?s1))
      in if new_buffer = AL_NONE
         then Inr (False, ?s1\<lparr>world := w',
                calls := calls ?s1 @ cs @ [AlureCreateBufferFromFile p,
                                         AlureGetErrorString, FLogMessage LML_CRITICAL]\<rparr>)
         else Inr (True, ?s1\<lparr>m_Buffers := AList.update p new_buffer (m_Buffers ?s1),
                world := w', calls := calls ?s1 @ cs @ [AlureCreateBufferFromFile p]\<rparr>))"
      using a m1 by (intro loadBuffer_reaches_backend) simp_all
    with add True assms show ?thesis
      by (simp add: Let_def update_appended map_of_appended AL_NONE_def del: map_of_append)
  qed
qed

theorem addBuffer_unregistered_witness:
  "map_of (m_Buffers (sim_group True ''d/'' [] True
      \<lparr>sim_files = [''d/a''], sim_decodable = [''a''], sim_live = [], sim_attached = [],
        sim_next = 8\<rparr>)) ''a'' = None
   \<and> addBuffer sim_collaborators ''a''
       (sim_group True ''d/'' [] True
         \<lparr>sim_files = [''d/a''], sim_decodable = [''a''], sim_live = [], sim_attached = [],
           sim_next = 8\<rparr>)
     = Inr (True,
         (sim_group True ''d/'' [(''a'', 8)] True
           \<lparr>sim_files = [''d/a''], sim_decodable = [''a''], sim_live = [8], sim_attached = [],
             sim_next = 9\<rparr>)
         \<lparr>calls := [FsExists ''d/a'', FsIsRegularFile ''d/a'',
                     AlureCreateBufferFromFile ''a'']\<rparr>)
   \<and> addBuffer sim_collaborators ''a''
       (sim_group True ''d/'' [] False
         \<lparr>sim_files = [''d/a''], sim_decodable = [''a''], sim_live = [], sim_attached = [],
           sim_next = 8\<rparr>)
     = Inr (True,
         (sim_group True ''d/'' [(''a'', 0)] False
           \<lparr>sim_files = [''d/a''], sim_decodable = [''a''], sim_live = [], sim_attached = [],
             sim_next = 8\<rparr>)
         \<lparr>calls := [FsExists ''d/a'', FsIsRegularFile ''d/a'']\<rparr>)
   \<and> addBuffer sim_collaborators ''b''
       (sim_group True ''d/'' [] True
         \<lparr>sim_files = [''d/a''], sim_decodable = [''a''], sim_live = [], sim_attached = [],
           sim_next = 8\<rparr>)
     = Inr (False,
         (sim_group True ''d/'' [] True
           \<lparr>sim_files = [''d/a''], sim_decodable = [''a''], sim_live = [], sim_attached = [],
             sim_next = 8\<rparr>)
         \<lparr>calls := [FsExists ''d/b'', FLogMessage LML_CRITICAL]\<rparr>)
   \<and> addBuffer sim_collaborators (replicate 300 CHR ''x'')
       (sim_group True ''d/'' [] True
         \<lparr>sim_files = [''d/a''], sim_decodable = [''a''], sim_live = [], sim_attached = [],
           sim_next = 8\<rparr>)
     = Inl (Filesystem_error
         ((sim_group True ''d/'' [] True
           \<lparr>sim_files = [''d/a''], sim_decodable = [''a''], sim_live = [], sim_attached = [],
             sim_next = 8\<rparr>)
         \<lparr>calls := [FsExists (''d/'' @ replicate 300 CHR ''x'')]\<rparr>))"
  using addBuffer_unregistered
    [of "sim_group True ''d/'' [] True
          \<lparr>sim_files = [''d/a''], sim_decodable = [''a''], sim_live = [], sim_attached = [],
            sim_next = 8\<rparr>"
        "''a''" sim_collaborators]
  by (simp add: sim_group_def sim_collaborators_def addBuffer_def loadBuffer_def
        not_an_actual_file_def AL_NONE_def)

subsection \<open>Whole groups\<close>

text \<open>
  The loops visit the keys of the map in iteration order. The facts below follow one
  call of \<open>unloadBuffer\<close> and then the loop, for a manager that is invalid and for one
  that is valid; \<open>count_over_keys\<close> turns a count over the keys into a count over the
  entries of a map with distinct keys.
\<close>

lemma unloadBuffer_invalid:
  "\<not> m_IsParentAudioManagerValid s \<Longrightarrow> unloadBuffer B it s = Some (False, s)"
  by (simp add: unloadBuffer_def)

lemma unloadBuffers_loop_invalid:
  "\<not> m_IsParentAudioManagerValid s \<Longrightarrow>
     unloadBuffers_loop B its s n = Some (n + int (length its), s)"
  by (induction its arbitrary: n) (simp_all add: unloadBuffer_invalid)

lemma unloadBuffer_step:
  assumes "m_IsParentAudioManagerValid s" and "map_of (m_Buffers s) it = Some h"
  shows "\<exists>ok s' cs. unloadBuffer B it s = Some (ok, s')
           \<and> m_IsParentAudioManagerValid s'
           \<and> map fst (m_Buffers s') = map fst (m_Buffers s)
           \<and> m_BufferGroupLoaded s' = m_BufferGroupLoaded s
           \<and> (\<forall>k. k \<noteq> it \<longrightarrow> map_of (m_Buffers s') k = map_of (m_Buffers s) k)
           \<and> map_of (m_Buffers s') it = Some (if ok then 0 else h)
           \<and> (ok \<or> h \<noteq> 0)
           \<and> calls s' = calls s @ cs
           \<and> (h \<noteq> 0 \<longrightarrow> AlDeleteBuffers h \<in> set cs)"
proof -
  have keys: "it \<in> set (map fst (m_Buffers s))"
    using assms(2) by (metis map_of_eq_None_iff option.distinct(1) set_map)
  show ?thesis
  proof (cases "h = 0")
    case True
    with assms have "unloadBuffer B it s = Some (True, s)"
      by (simp add: unloadBuffer_def)
    with assms True show ?thesis by auto
  next
    case False
    show ?thesis
    proof (cases "alIsBuffer B h (alDeleteBuffers B h (world s))")
      case True
      with assms False show ?thesis
        by (auto simp add: unloadBuffer_def Let_def)
    next
      case gone: False
      with assms False keys show ?thesis
        by (auto simp add: unloadBuffer_def Let_def AList.update_keys AList.update_conv')
    qed
  qed
qed

lemma unloadBuffers_loop_valid:
  assumes "m_IsParentAudioManagerValid s" and "distinct its"
    and "set its \<subseteq> dom (map_of (m_Buffers s))"
  shows "\<exists>s' cs. unloadBuffers_loop B its s n =
             Some (n + int (length (filter (\<lambda>k. map_of (m_Buffers s') k \<noteq> Some 0) its)), s')
           \<and> m_IsParentAudioManagerValid s'
           \<and> map fst (m_Buffers s') = map fst (m_Buffers s)
           \<and> m_BufferGroupLoaded s' = m_BufferGroupLoaded s
           \<and> (\<forall>k. k \<notin> set its \<longrightarrow> map_of (m_Buffers s') k = map_of (m_Buffers s) k)
           \<and> calls s' = calls s @ cs
           \<and> (\<forall>k h. k \<in> set its \<and> map_of (m_Buffers s) k = Some h \<and> h \<noteq> 0
                  \<longrightarrow> AlDeleteBuffers h \<in> set cs)"
  using assms
proof (induction its arbitrary: s n)
  case Nil
  then show ?case by simp
next
  case (Cons it its)
  from Cons.prems(3) obtain h where h: "map_of (m_Buffers s) it = Some h" by auto
  from unloadBuffer_step[OF Cons.prems(1) h, of B]
  obtain ok s1 cs1 where step: "unloadBuffer B it s = Some (ok, s1)"
      "m_IsParentAudioManagerValid s1"
      "map fst (m_Buffers s1) = map fst (m_Buffers s)"
      "m_BufferGroupLoaded s1 = m_BufferGroupLoaded s"
      "\<forall>k. k \<noteq> it \<longrightarrow> map_of (m_Buffers s1) k = map_of (m_Buffers s) k"
      "map_of (m_Buffers s1) it = Some (if ok then 0 else h)"
      "ok \<or> h \<noteq> 0"
      "calls s1 = calls s @ cs1"
      "h \<noteq> 0 \<longrightarrow> AlDeleteBuffers h \<in> set cs1"
    by blast
  have notin: "it \<notin> set its" and d: "distinct its" using Cons.prems(2) by simp_all
  have dom1: "dom (map_of (m_Buffers s1)) = dom (map_of (m_Buffers s))"
    using step(3) by (metis dom_map_of_conv_image_fst set_map)
  have sub: "set its \<subseteq> dom (map_of (m_Buffers s1))"
    using Cons.prems(3) dom1 by simp
  let ?n1 = "if ok then n else n + 1"
  from Cons.IH[OF step(2) d sub, of ?n1]
  obtain s' cs2 where rest:
      "unloadBuffers_loop B its s1 ?n1 =
         Some (?n1 + int (length (filter (\<lambda>k. map_of (m_Buffers s') k \<noteq> Some 0) its)), s')"
      "m_IsParentAudioManagerValid s'"
      "map fst (m_Buffers s') = map fst (m_Buffers s1)"
      "m_BufferGroupLoaded s' = m_BufferGroupLoaded s1"
      "\<forall>k. k \<notin> set its \<longrightarrow> map_of (m_Buffers s') k = map_of (m_Buffers s1) k"
      "calls s' = calls s1 @ cs2"
      "\<forall>k h. k \<in> set its \<and> map_of (m_Buffers s1) k = Some h \<and> h \<noteq> 0
                  \<longrightarrow> AlDeleteBuffers h \<in> set cs2"
    by blast
  have it': "map_of (m_Buffers s') it = Some (if ok then 0 else h)"
    using rest(5) notin step(6) by simp
  have cnt: "?n1 + int (length (filter (\<lambda>k. map_of (m_Buffers s') k \<noteq> Some 0) its))
        = n + int (length (filter (\<lambda>k. map_of (m_Buffers s') k \<noteq> Some 0) (it # its)))"
    using it' step(7) by auto
  have run: "unloadBuffers_loop B (it # its) s n =
      Some (n + int (length (filter (\<lambda>k. map_of (m_Buffers s') k \<noteq> Some 0) (it # its))), s')"
    using step(1) rest(1) cnt by simp
  have other: "\<forall>k. k \<notin> set (it # its) \<longrightarrow> map_of (m_Buffers s') k = map_of (m_Buffers s) k"
    using rest(5) step(5) by simp
  have tr: "calls s' = calls s @ (cs1 @ cs2)"
    using rest(6) step(8) by simp
  have del: "\<forall>k g. k \<in> set (it # its) \<and> map_of (m_Buffers s) k = Some g \<and> g \<noteq> 0
                  \<longrightarrow> AlDeleteBuffers g \<in> set (cs1 @ cs2)"
  proof (intro allI impI)
    fix k g
    assume a: "k \<in> set (it # its) \<and> map_of (m_Buffers s) k = Some g \<and> g \<noteq> 0"
    show "AlDeleteBuffers g \<in> set (cs1 @ cs2)"
    proof (cases "k = it")
      case True
      with a h step(9) show ?thesis by simp
    next
      case False
      with a have "k \<in> set its" by simp
      moreover have "map_of (m_Buffers s1) k = Some g" using False a step(5) by simp
      ultimately show ?thesis using rest(7) a by auto
    qed
  qed
  from run rest(2) rest(3) step(3) rest(4) step(4) other tr del
  show ?case by (intro exI[of _ s'] exI[of _ "cs1 @ cs2"]) simp
qed

lemma count_over_keys:
  assumes "distinct (map fst xs)"
  shows "length (filter (\<lambda>k. P k (map_of xs k)) (map fst xs))
       = length (filter (\<lambda>e. P (fst e) (Some (snd e))) xs)"
proof -
  have "filter (\<lambda>k. P k (map_of xs k)) (map fst xs)
      = map fst (filter (\<lambda>e. P (fst e) (map_of xs (fst e))) xs)"
    by (simp add: filter_map comp_def)
  moreover have "filter (\<lambda>e. P (fst e) (map_of xs (fst e))) xs
      = filter (\<lambda>e. P (fst e) (Some (snd e))) xs"
    using assms by (intro filter_cong) auto
  ultimately show ?thesis by simp
qed

text \<open>
  C7, as stated, fails: with an invalidated manager \<open>unloadBuffer\<close> returns \<open>False\<close>
  for every entry before it looks at the handle, so an entry that is not loaded is
  counted as a failure. Here the result is 1 and the only entry has handle 0.
\<close>

theorem unloadBuffers_invalid_manager_counterexample:
  "unloadBuffers sim_collaborators
     (sim_group False ''d/'' [(''a'', 0)] True
        \<lparr>sim_files = [], sim_decodable = [], sim_live = [], sim_attached = [], sim_next = 8\<rparr>)
   = Some (1,
       sim_group False ''d/'' [(''a'', 0)] False
        \<lparr>sim_files = [], sim_decodable = [], sim_live = [], sim_attached = [], sim_next = 8\<rparr>)
   \<and> getBuffer (sim_group False ''d/'' [(''a'', 0)] False
        \<lparr>sim_files = [], sim_decodable = [], sim_live = [], sim_attached = [], sim_next = 8\<rparr>)
        ''a'' = 0"
  by (simp add: sim_group_def unloadBuffers_def unloadBuffer_def getBuffer_def)

text \<open>
  C7, amended. \<open>unloadBuffers\<close> sets the loaded-flag to false and calls \<open>unloadBuffer\<close>
  on every entry; the keys of the map stay as they are. With a valid manager a deletion
  is requested for every handle that was non-zero, and the result is exactly the number
  of entries whose handle is non-zero afterwards. With an invalidated manager no call is
  made, no handle changes, and the result is the number of all entries.
\<close>

theorem unloadBuffers_count:
  assumes "distinct (map fst (m_Buffers s))"
  shows "\<exists>n s' cs. unloadBuffers B s = Some (n, s')
           \<and> \<not> m_BufferGroupLoaded s'
           \<and> map fst (m_Buffers s') = map fst (m_Buffers s)
           \<and> calls s' = calls s @ cs
           \<and> (if m_IsParentAudioManagerValid s
              then n = int (length (filter (\<lambda>e. snd e \<noteq> 0) (m_Buffers s')))
                 \<and> (\<forall>k h. map_of (m_Buffers s) k = Some h \<and> h \<noteq> 0
                       \<longrightarrow> AlDeleteBuffers h \<in> set cs)
              else n = int (length (m_Buffers s))
                 \<and> m_Buffers s' = m_Buffers s \<and> world s' = world s \<and> cs = [])"
proof (cases "m_IsParentAudioManagerValid s")
  case False
  then show ?thesis
    by (simp add: unloadBuffers_def unloadBuffers_loop_invalid)
next
  case True
  let ?s0 = "s\<lparr>m_BufferGroupLoaded := False\<rparr>"
  let ?its = "map fst (m_Buffers s)"
  have v: "m_IsParentAudioManagerValid ?s0" using True by simp
  have sub: "set ?its \<subseteq> dom (map_of (m_Buffers ?s0))"
    by (simp add: dom_map_of_conv_image_fst)
  from unloadBuffers_loop_valid[OF v assms sub, of B 0]
  obtain s' cs where r:
      "unloadBuffers_loop B ?its ?s0 0 =
         Some (0 + int (length (filter (\<lambda>k. map_of (m_Buffers s') k \<noteq> Some 0) ?its)), s')"
      "map fst (m_Buffers s') = map fst (m_Buffers ?s0)"
      "m_BufferGroupLoaded s' = m_BufferGroupLoaded ?s0"
      "calls s' = calls ?s0 @ cs"
      "\<forall>k h. k \<in> set ?its \<and> map_of (m_Buffers ?s0) k = Some h \<and> h \<noteq> 0
                  \<longrightarrow> AlDeleteBuffers h \<in> set cs"
    by blast
  have d': "distinct (map fst (m_Buffers s'))" using r(2) assms by simp
  have "length (filter (\<lambda>k. map_of (m_Buffers s') k \<noteq> Some 0) (map fst (m_Buffers s')))
      = length (filter (\<lambda>e. Some (snd e) \<noteq> Some 0) (m_Buffers s'))"
    by (rule count_over_keys[OF d', of "\<lambda>k v. v \<noteq> Some 0"])
  then have cnt: "length (filter (\<lambda>k. map_of (m_Buffers s') k \<noteq> Some 0) ?its)
      = length (filter (\<lambda>e. snd e \<noteq> 0) (m_Buffers s'))"
    using r(2) by simp
  have del: "\<forall>k h. map_of (m_Buffers s) k = Some h \<and> h \<noteq> 0 \<longrightarrow> AlDeleteBuffers h \<in> set cs"
  proof (intro allI impI)
    fix k h assume a: "map_of (m_Buffers s) k = Some h \<and> h \<noteq> 0"
    then have "k \<in> set ?its" by (metis map_of_eq_None_iff option.distinct(1) set_map)
    with a r(5) show "AlDeleteBuffers h \<in> set cs" by auto
  qed
  from r(1) cnt r(2) r(3) r(4) del True show ?thesis
    by (simp add: unloadBuffers_def)
qed


theorem unloadBuffers_count_witness:
  "distinct (map fst (m_Buffers
      (sim_group True ''d/'' [(''a'', 7), (''b'', 8), (''c'', 0)] True
        \<lparr>sim_files = [], sim_decodable = [], sim_live = [7, 8], sim_attached = [7],
          sim_next = 9\<rparr>)))
   \<and> unloadBuffers sim_collaborators
       (sim_group True ''d/'' [(''a'', 7), (''b'', 8), (''c'', 0)] True
         \<lparr>sim_files = [], sim_decodable = [], sim_live = [7, 8], sim_attached = [7],
           sim_next = 9\<rparr>)
     = Some (1,
         (sim_group True ''d/'' [(''a'', 7), (''b'', 0), (''c'', 0)] False
           \<lparr>sim_files = [], sim_decodable = [], sim_live = [7], sim_attached = [7],
             sim_next = 9\<rparr>)
         \<lparr>calls := [AlDeleteBuffers 7, AlIsBuffer 7, AlureGetErrorString,
                     FLogMessage LML_CRITICAL, AlDeleteBuffers 8, AlIsBuffer 8]\<rparr>)"
  using unloadBuffers_count
    [of "sim_group True ''d/'' [(''a'', 7), (''b'', 8), (''c'', 0)] True
          \<lparr>sim_files = [], sim_decodable = [], sim_live = [7, 8], sim_attached = [7],
            sim_next = 9\<rparr>"
        sim_collaborators]
  by (simp add: sim_group_def sim_collaborators_def unloadBuffers_def unloadBuffer_def)








subsection \<open>Paths and dropped handles\<close>

text \<open>
  With a valid manager the first call of \<open>addBuffer\<close> tests the prefixed path, whether
  \<open>addBuffer\<close> then returns or the test throws.
\<close>

lemma addBuffer_first_call:
  assumes "m_IsParentAudioManagerValid s"
  shows "\<exists>s' rest. ((\<exists>ok. addBuffer B p s = Inr (ok, s'))
                      \<or> addBuffer B p s = Inl (Filesystem_error s'))
            \<and> calls s' = calls s @ FsExists (m_PathPrefix s @ p) # rest"
proof -
  let ?full = "m_PathPrefix s @ p"
  let ?r = "fst (not_an_actual_file B ?full (world s))"
  obtain f where nf: "not_an_actual_file B ?full (world s) = (?r, FsExists ?full # f)"
    using not_an_actual_file_calls[of B ?full "world s"] by (metis prod.collapse)
  consider (throws) "?r = None" | (missing) "?r = Some True" | (found) "?r = Some False"
    by (cases ?r) auto
  then show ?thesis
  proof cases
    case throws
    with assms nf
    have "addBuffer B p s = Inl (Filesystem_error (s\<lparr>calls := calls s @ FsExists ?full # f\<rparr>))"
      by (simp add: addBuffer_def split: prod.splits)
    then show ?thesis
      by (intro exI[of _ "s\<lparr>calls := calls s @ FsExists ?full # f\<rparr>"] exI[of _ f]) auto
  next
    case missing
    with assms nf
    have "addBuffer B p s =
            Inr (False, s\<lparr>calls := calls s @ FsExists ?full # (f @ [FLogMessage LML_CRITICAL])\<rparr>)"
      by (simp add: addBuffer_def split: prod.splits)
    then show ?thesis
      by (intro exI[of _ "s\<lparr>calls := calls s @ FsExists ?full # (f @ [FLogMessage LML_CRITICAL])\<rparr>"]
                exI[of _ "f @ [FLogMessage LML_CRITICAL]"]) auto
  next
    case found
    show ?thesis
    proof (cases "map_of (m_Buffers s) p")
      case (Some h)
      with assms nf found
      have "addBuffer B p s =
              Inr (False, s\<lparr>calls := calls s @ FsExists ?full # (f @ [FLogMessage LML_NORMAL])\<rparr>)"
        by (simp add: addBuffer_def split: prod.splits)
      then show ?thesis
        by (intro exI[of _ "s\<lparr>calls := calls s @ FsExists ?full # (f @ [FLogMessage LML_NORMAL])\<rparr>"]
                  exI[of _ "f @ [FLogMessage LML_NORMAL]"]) auto
    next
      case None
      let ?s1 = "s\<lparr>m_Buffers := m_Buffers s @ [(p, 0)], calls := calls s @ FsExists ?full # f\<rparr>"
      show ?thesis
      proof (cases "m_BufferGroupLoaded s")
        case False
        with assms nf found None have "addBuffer B p s = Inr (True, ?s1)"
          by (simp add: addBuffer_def split: prod.splits)
        then show ?thesis by (intro exI[of _ ?s1] exI[of _ f]) auto
      next
        case True
        have present: "fs_exists B ?full (world s) = Some True
                       \<and> fs_is_regular_file B ?full (world s) = Some True"
          using found by (simp add: not_an_actual_file_found)
        have add: "addBuffer B p s = loadBuffer B p (verify_files_exist_default B) ?s1"
          using assms nf found None True
          by (simp add: addBuffer_def Let_def split: prod.splits)
        have "\<exists>ok s' rest. loadBuffer B p (verify_files_exist_default B) ?s1 = Inr (ok, s')
            \<and> calls s' = calls s @ FsExists ?full # rest"
          using assms present None
          by (subst loadBuffer_reaches_backend)
             (auto simp add: map_add_def Let_def)
        with add show ?thesis by auto
      qed
    qed
  qed
qed

text \<open>
  C9. When \<open>loadBuffer\<close> reaches the backend (valid manager, handle 0, and the file
  present if the check is requested), the check, if made, tests the prefix followed by
  the entry's path, and buffer creation is called with the entry's path alone, on the
  collaborators' state as it was. \<open>addBuffer\<close> with a valid manager begins by testing
  the prefixed path as well. With a non-empty prefix the two paths differ.
\<close>

theorem loadBuffer_backend_path:
  "(m_IsParentAudioManagerValid s \<and> map_of (m_Buffers s) it = Some 0 \<and>
      (verify \<longrightarrow> fs_exists B (m_PathPrefix s @ it) (world s) = Some True
                 \<and> fs_is_regular_file B (m_PathPrefix s @ it) (world s) = Some True)
    \<longrightarrow> (\<exists>ok s' rest. loadBuffer B it verify s = Inr (ok, s')
            \<and> calls s' = calls s @
                 (if verify then [FsExists (m_PathPrefix s @ it),
                                  FsIsRegularFile (m_PathPrefix s @ it)] else []) @
                 AlureCreateBufferFromFile it # rest
            \<and> set rest \<subseteq> {AlureGetErrorString, FLogMessage LML_CRITICAL}
            \<and> world s' = snd (alureCreateBufferFromFile B it (world s))))
   \<and> (m_IsParentAudioManagerValid s
    \<longrightarrow> (\<exists>s' rest. ((\<exists>ok. addBuffer B it s = Inr (ok, s'))
                       \<or> addBuffer B it s = Inl (Filesystem_error s'))
            \<and> calls s' = calls s @ FsExists (m_PathPrefix s @ it) # rest))
   \<and> (m_PathPrefix s \<noteq> [] \<longrightarrow> m_PathPrefix s @ it \<noteq> it)"
proof (intro conjI impI)
  assume a: "m_IsParentAudioManagerValid s \<and> map_of (m_Buffers s) it = Some 0 \<and>
      (verify \<longrightarrow> fs_exists B (m_PathPrefix s @ it) (world s) = Some True
                 \<and> fs_is_regular_file B (m_PathPrefix s @ it) (world s) = Some True)"
  then show "\<exists>ok s' rest. loadBuffer B it verify s = Inr (ok, s')
            \<and> calls s' = calls s @
                 (if verify then [FsExists (m_PathPrefix s @ it),
                                  FsIsRegularFile (m_PathPrefix s @ it)] else []) @
                 AlureCreateBufferFromFile it # rest
            \<and> set rest \<subseteq> {AlureGetErrorString, FLogMessage LML_CRITICAL}
            \<and> world s' = snd (alureCreateBufferFromFile B it (world s))"
    by (subst loadBuffer_reaches_backend) (auto simp add: Let_def)
next
  assume "m_IsParentAudioManagerValid s"
  then show "\<exists>s' rest. ((\<exists>ok. addBuffer B it s = Inr (ok, s'))
                       \<or> addBuffer B it s = Inl (Filesystem_error s'))
            \<and> calls s' = calls s @ FsExists (m_PathPrefix s @ it) # rest"
    by (rule addBuffer_first_call)
next
  assume "m_PathPrefix s \<noteq> []"
  then show "m_PathPrefix s @ it \<noteq> it" by simp
qed

theorem loadBuffer_backend_path_witness:
  "loadBuffer sim_collaborators ''a'' True
     (sim_group True ''d/'' [(''a'', 0)] True
        \<lparr>sim_files = [''d/a''], sim_decodable = [''a''], sim_live = [], sim_attached = [],
          sim_next = 8\<rparr>)
   = Inr (True,
       (sim_group True ''d/'' [(''a'', 8)] True
         \<lparr>sim_files = [''d/a''], sim_decodable = [''a''], sim_live = [8], sim_attached = [],
           sim_next = 9\<rparr>)
       \<lparr>calls := [FsExists ''d/a'', FsIsRegularFile ''d/a'', AlureCreateBufferFromFile ''a'']\<rparr>)
   \<and> ''d/'' @ ''a'' \<noteq> ''a''"
  using loadBuffer_backend_path
    [of "sim_group True ''d/'' [(''a'', 0)] True
          \<lparr>sim_files = [''d/a''], sim_decodable = [''a''], sim_live = [], sim_attached = [],
            sim_next = 8\<rparr>"
        "''a''" True sim_collaborators]
  by (simp add: sim_group_def sim_collaborators_def loadBuffer_def not_an_actual_file_def
        AL_NONE_def)

text \<open>
  C10. Removing a registered path from a group with a valid manager erases the entry
  also when its unload fails: if the backend still reports the non-zero handle as a
  buffer after the purge and the deletion request, the entry is gone from the map,
  \<open>getBuffer\<close> gives 0, and the handle is still a buffer of the backend.
\<close>

theorem removeBuffer_drops_live_handle:
  assumes "m_IsParentAudioManagerValid s" and "map_of (m_Buffers s) p = Some h" and "h \<noteq> 0"
    and "alIsBuffer B h (alDeleteBuffers B h (purgeBufferFromSources B h (world s)))"
  shows "\<exists>s'. removeBuffer B p s = Some s'
            \<and> m_Buffers s' = AList.delete p (m_Buffers s)
            \<and> map_of (m_Buffers s') p = None
            \<and> getBuffer s' p = 0
            \<and> alIsBuffer B h (world s')"
  using assms
  by (simp add: removeBuffer_def unloadBuffer_def Let_def getBuffer_def AList.delete_conv')

theorem removeBuffer_drops_live_handle_witness:
  "removeBuffer (sim_collaborators\<lparr>purgeBufferFromSources := (\<lambda>h w. w)\<rparr>) ''a''
     (sim_group True ''d/'' [(''a'', 7), (''b'', 0)] True
        \<lparr>sim_files = [], sim_decodable = [], sim_live = [7], sim_attached = [7], sim_next = 8\<rparr>)
   = Some ((sim_group True ''d/'' [(''b'', 0)] True
        \<lparr>sim_files = [], sim_decodable = [], sim_live = [7], sim_attached = [7], sim_next = 8\<rparr>)
      \<lparr>calls := [PurgeBufferFromSources 7, AlDeleteBuffers 7, AlIsBuffer 7,
                 AlureGetErrorString, FLogMessage LML_CRITICAL]\<rparr>)
   \<and> alIsBuffer (sim_collaborators\<lparr>purgeBufferFromSources := (\<lambda>h w. w)\<rparr>) 7
        \<lparr>sim_files = [], sim_decodable = [], sim_live = [7], sim_attached = [7], sim_next = 8\<rparr>"
  using removeBuffer_drops_live_handle
    [of "sim_group True ''d/'' [(''a'', 7), (''b'', 0)] True
          \<lparr>sim_files = [], sim_decodable = [], sim_live = [7], sim_attached = [7], sim_next = 8\<rparr>"
        "''a''" 7 "sim_collaborators\<lparr>purgeBufferFromSources := (\<lambda>h w. w)\<rparr>"]
  by (simp add: sim_group_def sim_collaborators_def removeBuffer_def unloadBuffer_def)

end
